theory Spec2Isabelle
  imports Complex_Main "HOL-Library.AList" "HOL-Library.Product_Lexorder"
begin

section \<open>Python values, errors and dictionaries\<close>

text \<open>
  The module \<^verbatim>\<open>atlite/datasets/cmip.py\<close> retrieves CMIP data from the ESGF servers
  and prepares it for a cutout. Every exception the code can raise is a value of
  \<open>error\<close>; a function that may raise returns \<open>error + 'a\<close> with \<open>Inl\<close> for the
  exception. The constructor is the Python exception class, its argument the message
  (for \<open>KeyError\<close>, \<open>AttributeError\<close> and \<open>UnboundLocalError\<close> the name that was
  looked up).
\<close>

datatype error =
    ValueError string
  | TypeError string
  | KeyError string
  | IndexError string
  | AttributeError string
  | UnboundLocalError string
  | OSError string

text \<open>
  The values stored in the parameter dictionaries: \<^verbatim>\<open>None\<close>, strings, and the list
  of variable names that the calculators store under the key \<^verbatim>\<open>variables\<close>.
\<close>

datatype pyval = PyNone | Str string | StrList "string list"

text \<open>
  A Python \<^verbatim>\<open>dict\<close> keeps its keys in insertion order; assigning to a key that is
  present keeps its position. An association list with \<open>AList.update\<close> and
  \<open>AList.delete\<close> behaves the same way.
\<close>

type_synonym params = "(string \<times> pyval) list"






text \<open>Sequencing of computations that may raise.\<close>

definition bindE :: "error + 'a \<Rightarrow> ('a \<Rightarrow> error + 'b) \<Rightarrow> error + 'b" where
  "bindE m f = (case m of Inl e \<Rightarrow> Inl e | Inr x \<Rightarrow> f x)"

text \<open>Python indexing \<^verbatim>\<open>xs[i]\<close>: a negative index counts from the end.\<close>

definition py_index :: "'a list \<Rightarrow> int \<Rightarrow> error + 'a" where
  "py_index xs i =
     (if 0 \<le> i \<and> i < int (length xs) then Inr (xs ! nat i)
      else if i < 0 \<and> - int (length xs) \<le> i then Inr (xs ! nat (int (length xs) + i))
      else Inl (IndexError ''index out of range''))"

section \<open>Strings: \<^verbatim>\<open>str.split\<close> and \<^verbatim>\<open>int\<close>\<close>

fun str_split :: "char \<Rightarrow> string \<Rightarrow> string list" where
  "str_split sep [] = [[]]"
| "str_split sep (c # cs) =
     (if c = sep then [] # str_split sep cs
      else (case str_split sep cs of [] \<Rightarrow> [[c]] | p # ps \<Rightarrow> (c # p) # ps))"

definition digit_val :: "char \<Rightarrow> nat option" where
  "digit_val c = (let n = (of_char c :: nat) in if 48 \<le> n \<and> n \<le> 57 then Some (n - 48) else None)"

definition is_digit :: "char \<Rightarrow> bool" where
  "is_digit c = (digit_val c \<noteq> None)"

text \<open>
  The characters Python strips as white space before it reads an integer literal
  (tab to carriage return, the separators 28 to 31, space, NEL and the no-break space).
\<close>

definition is_space :: "char \<Rightarrow> bool" where
  "is_space c = ((of_char c :: nat) \<in> {9, 10, 11, 12, 13, 28, 29, 30, 31, 32, 133, 160})"

definition str_strip :: "string \<Rightarrow> string" where
  "str_strip s = rev (dropWhile is_space (rev (dropWhile is_space s)))"

text \<open>
  The digits of a decimal literal after its first digit: single underscores may stand
  between digits.
\<close>

fun int_body :: "nat \<Rightarrow> string \<Rightarrow> nat option" where
  "int_body acc [] = Some acc"
| "int_body acc (c # cs) =
     (if c = CHR ''_'' then
        (case cs of
           [] \<Rightarrow> None
         | d # ds \<Rightarrow> (case digit_val d of None \<Rightarrow> None | Some v \<Rightarrow> int_body (10 * acc + v) ds))
      else (case digit_val c of None \<Rightarrow> None | Some v \<Rightarrow> int_body (10 * acc + v) cs))"

definition int_digits :: "string \<Rightarrow> nat option" where
  "int_digits s =
     (case s of
        [] \<Rightarrow> None
      | c # cs \<Rightarrow> (case digit_val c of None \<Rightarrow> None | Some v \<Rightarrow> int_body v cs))"

definition py_int :: "string \<Rightarrow> error + int" where
  "py_int s =
     (let s1 = str_strip s;
          (sign, s2) = (case s1 of
                          [] \<Rightarrow> (1, s1)
                        | c # cs \<Rightarrow> if c = CHR ''+'' then (1, cs)
                                   else if c = CHR ''-'' then (- 1, cs) else (1, s1))
      in case int_digits s2 of
           None \<Rightarrow> Inl (ValueError ''invalid literal for int() with base 10'')
         | Some n \<Rightarrow> Inr (sign * int n))"

text \<open>The number a string of decimal digits denotes.\<close>

definition dec_of :: "string \<Rightarrow> int" where
  "dec_of s = int (foldl (\<lambda>a c. 10 * a + (of_char c - 48)) 0 s)"

section \<open>The temporal coverage filter\<close>

text \<open>
  \<^verbatim>\<open>pd.date_range(str(s_year), str(e_year), freq="AS")\<close> first reads both texts as
  time stamps: the text of a year stands for the first of January of that year. The
  library counts nanoseconds in 64 bits, so that its time stamps reach from 21 September
  1677 to 11 April 2262: the first of January is a time stamp for the years 1678 to 2262,
  and for any other year of four digits the call raises \<^verbatim>\<open>OutOfBoundsDatetime\<close>. The
  text of a number below 1000 is refused as a date. Both exceptions are
  \<^verbatim>\<open>ValueError\<close>s; the model keeps that class.
\<close>

definition year_start :: "int \<Rightarrow> error + int" where
  "year_start year =
     (if year < 1000 then Inl (ValueError ''Given date string not likely a datetime'')
      else if year < 1678 \<or> 2262 < year then Inl (ValueError ''Out of bounds nanosecond timestamp'')
      else Inr year)"

text \<open>
  The index that the call returns holds the year starts from the start year to the end
  year, both included, and is empty when the end year lies before the start year;
  \<^verbatim>\<open>.year\<close> reads the years back.
\<close>

definition date_range_years :: "int \<Rightarrow> int \<Rightarrow> error + int list" where
  "date_range_years s_year e_year =
     bindE (year_start s_year) (\<lambda>s.
     bindE (year_start e_year) (\<lambda>e.
     Inr [s..e]))"

definition year_in_file :: "string \<Rightarrow> int list \<Rightarrow> error + bool" where
  "year_in_file time_range years =
     bindE (py_index (str_split (CHR ''.'') time_range) 0) (\<lambda>time_range.
     bindE (py_index (str_split (CHR ''-'') time_range) 0) (\<lambda>s_part.
     bindE (py_int (take 4 s_part)) (\<lambda>s_year.
     bindE (py_index (str_split (CHR ''-'') time_range) 1) (\<lambda>e_part.
     bindE (py_int (take 4 e_part)) (\<lambda>e_year.
     bindE (date_range_years s_year e_year) (\<lambda>date_range.
       if s_year = e_year \<and> e_year \<in> set years then Inr True
       else if (\<exists>y \<in> set date_range. y \<in> set years) then Inr True
       else Inr False))))))"

section \<open>Labelled arrays and datasets\<close>

text \<open>
  A time stamp is (year, month, day, hour, seconds within the hour), ordered
  lexicographically. The time axis of a dataset is either of the standard type
  (\<^verbatim>\<open>np.datetime64\<close>) or a \<^verbatim>\<open>cftime\<close> axis with a named calendar.
\<close>

type_synonym datetime = "int \<times> int \<times> int \<times> int \<times> int"



datatype calendar = Datetime64 | Cftime string

text \<open>
  The arrays are lazy; the model takes an array as the function from the positions
  (time, lev, y, x) to its value there, in exact real arithmetic. An array that lacks a
  dimension is constant along it, which is how xarray broadcasts. All variables that one
  calculator combines are taken to live on the same axes, so that combining them by
  position is combining them by label. A dataset carries its axes, its data variables
  in the order of \<^verbatim>\<open>ds.keys()\<close>, the names of its coordinates that are not axes
  (such as \<^verbatim>\<open>height\<close>), and its attributes. The datasets of the model have all of
  the dimensions \<^verbatim>\<open>time\<close>, \<^verbatim>\<open>lev\<close>, \<^verbatim>\<open>lat\<close> and \<^verbatim>\<open>lon\<close>, each of any length,
  and hold the fields that the calculators read as data variables.
\<close>

type_synonym darray = "nat \<Rightarrow> nat \<Rightarrow> nat \<Rightarrow> nat \<Rightarrow> real"

record dataset =
  calendar :: calendar
  ds_time :: "datetime list"
  ds_lev :: "real list"
  ds_lat :: "real list"
  ds_lon :: "real list"
  data_vars :: "(string \<times> darray) list"
  aux_coords :: "string list"
  attrs :: params




text \<open>\<^verbatim>\<open>a.isel(lev=k)\<close>: the slice at level position \<open>k\<close>, without a level dimension.\<close>

definition da_isel_lev :: "nat \<Rightarrow> darray \<Rightarrow> darray" where
  "da_isel_lev k a = (\<lambda>t _ j i. a t k j i)"

text \<open>\<^verbatim>\<open>xr.concat(slices, "lev")\<close>\<close>

definition da_concat_lev :: "darray list \<Rightarrow> darray" where
  "da_concat_lev zs = (\<lambda>t k j i. (zs ! k) t 0 j i)"

datatype axis = Time | Lev | Lat | Lon

definition da_take :: "axis \<Rightarrow> nat list \<Rightarrow> darray \<Rightarrow> darray" where
  "da_take ax idx a =
     (case ax of
        Time \<Rightarrow> (\<lambda>t k j i. a (idx ! t) k j i)
      | Lev \<Rightarrow> (\<lambda>t k j i. a t (idx ! k) j i)
      | Lat \<Rightarrow> (\<lambda>t k j i. a t k (idx ! j) i)
      | Lon \<Rightarrow> (\<lambda>t k j i. a t k j (idx ! i)))"

text \<open>Selection by position along one axis: the axis and every variable follow.\<close>

definition ds_isel :: "axis \<Rightarrow> nat list \<Rightarrow> dataset \<Rightarrow> dataset" where
  "ds_isel ax idx ds =
     (let ds1 = (case ax of
                   Time \<Rightarrow> ds\<lparr>ds_time := map (\<lambda>n. ds_time ds ! n) idx\<rparr>
                 | Lev \<Rightarrow> ds\<lparr>ds_lev := map (\<lambda>n. ds_lev ds ! n) idx\<rparr>
                 | Lat \<Rightarrow> ds\<lparr>ds_lat := map (\<lambda>n. ds_lat ds ! n) idx\<rparr>
                 | Lon \<Rightarrow> ds\<lparr>ds_lon := map (\<lambda>n. ds_lon ds ! n) idx\<rparr>)
      in ds1\<lparr>data_vars := map (\<lambda>(n, a). (n, da_take ax idx a)) (data_vars ds)\<rparr>)"













text \<open>
  \<^verbatim>\<open>xr.merge(dsets)\<close>: the variables of all datasets on the axes of the first, an
  earlier dataset winning where a name repeats. The check that repeated variables hold
  equal values is not part of the model; the calculators merge one dataset at a time.
\<close>

definition empty_dataset :: dataset where
  "empty_dataset = \<lparr>calendar = Datetime64, ds_time = [], ds_lev = [], ds_lat = [], ds_lon = [],
     data_vars = [], aux_coords = [], attrs = []\<rparr>"



section \<open>The search service, the archive and the trace of a retrieval\<close>















section \<open>The coordinate normalizer\<close>

text \<open>Python's \<^verbatim>\<open>%\<close> with a positive divisor.\<close>

definition py_mod :: "real \<Rightarrow> real \<Rightarrow> real" where
  "py_mod a b = a - b * of_int \<lfloor>a / b\<rfloor>"

definition wrap_lon :: "real \<Rightarrow> real" where
  "wrap_lon lon = py_mod (lon + 180) 360 - 180"

text \<open>\<^verbatim>\<open>ds.sortby("lon")\<close>: a stable sort of the positions by their longitude.\<close>

definition sortby_lon :: "dataset \<Rightarrow> dataset" where
  "sortby_lon ds = ds_isel Lon (sort_key (\<lambda>i. ds_lon ds ! i) [0..<length (ds_lon ds)]) ds"

text \<open>
  The first lines of \<^verbatim>\<open>_rename_and_fix_coords\<close>: the longitudes are wrapped and the
  dataset is sorted by longitude. (The attributes \<^verbatim>\<open>valid_min\<close> and
  \<^verbatim>\<open>valid_max\<close> of the coordinate are not part of the model.)
\<close>

definition fix_lon :: "dataset \<Rightarrow> dataset" where
  "fix_lon ds = sortby_lon (ds\<lparr>ds_lon := map wrap_lon (ds_lon ds)\<rparr>)"



section \<open>The cutout and the derived field calculators\<close>









text \<open>
  The integration of the height in the branch of \<^verbatim>\<open>get_data_wind\<close> for sigma
  levels. The loop \<^verbatim>\<open>for k in range(1, klev)\<close> computes the slice \<open>z1\<close> of level
  \<open>k\<close> from the slice \<open>z0\<close> of the level before and appends it to \<open>z\<close> (the
  repeated \<^verbatim>\<open>xr.concat([z, z1], "lev")\<close>, kept here as the list of the slices).
  \<^verbatim>\<open>np.log\<close> is the real logarithm \<open>ln\<close> where its argument is positive; at zero
  and below numpy gives an infinity or a NaN, which are no values of the real-valued
  arrays of the model, so that what is proved of the heights is proved where the
  arguments are positive.
\<close>

fun height_loop ::
  "real \<Rightarrow> real \<Rightarrow> darray \<Rightarrow> darray \<Rightarrow> nat list \<Rightarrow> darray \<Rightarrow> darray list \<Rightarrow> darray list" where
  "height_loop Rd g tv p [] z0 z = z"
| "height_loop Rd g tv p (k # ks) z0 z =
     (let z1 = (\<lambda>t l j i. z0 t l j i
                  - (Rd / g) * 0.5 * (da_isel_lev k tv t l j i + da_isel_lev (k - 1) tv t l j i)
                    * ln (da_isel_lev k p t l j i / da_isel_lev (k - 1) p t l j i))
      in height_loop Rd g tv p ks z1 (z @ [z1]))"

text \<open>
  The slices of the height for \<open>klev\<close> levels, from \<^verbatim>\<open>p0 = p.isel(lev=0)\<close> to the end
  of the loop. \<^verbatim>\<open>isel(lev=0)\<close> raises on an empty level axis.
\<close>

definition height_slices ::
  "real \<Rightarrow> real \<Rightarrow> darray \<Rightarrow> darray \<Rightarrow> darray \<Rightarrow> nat \<Rightarrow> error + darray list" where
  "height_slices Rd g tv p ps klev =
     (if klev = 0 then Inl (IndexError ''index 0 is out of bounds for axis 0 with size 0'')
      else
        let p0 = da_isel_lev 0 p;
            z0 = (\<lambda>t l j i. - (Rd / g) * da_isel_lev 0 tv t l j i * ln (p0 t l j i / ps t l j i))
        in Inr (height_loop Rd g tv p [1..<klev] z0 [z0]))"

text \<open>
  The height on all levels, with the constants of the source.
  \<^verbatim>\<open>z = z.assign_coords(lev=p.lev)\<close>: with a single level the loop never runs,
  \<open>z\<close> is the slice \<open>z0\<close> without a level dimension, and xarray refuses the
  coordinate.
\<close>

definition hybrid_height :: "darray \<Rightarrow> darray \<Rightarrow> darray \<Rightarrow> nat \<Rightarrow> error + darray" where
  "hybrid_height tv p ps klev =
     (let Rd = 287.058; g = 9.80665 in
      bindE (height_slices Rd g tv p ps klev) (\<lambda>z.
      if klev = 1 then Inl (ValueError ''cannot add coordinates with new dimensions to a DataArray'')
      else Inr (da_concat_lev z)))"








section \<open>The feature dispatcher\<close>








section \<open>Reference definitions and example inputs\<close>

text \<open>
  The recurrence of the hypsometric equation as the specification words it, at one
  point of the grid: \<open>Tv\<close> and \<open>P\<close> give the virtual temperature and the pressure on
  each level, \<open>ps\<close> is the surface pressure.
\<close>

fun hypsometric :: "real \<Rightarrow> real \<Rightarrow> (nat \<Rightarrow> real) \<Rightarrow> (nat \<Rightarrow> real) \<Rightarrow> real \<Rightarrow> nat \<Rightarrow> real" where
  "hypsometric Rd g Tv P ps 0 = - (Rd / g) * Tv 0 * ln (P 0 / ps)"
| "hypsometric Rd g Tv P ps (Suc k) =
     hypsometric Rd g Tv P ps k - (Rd / g) * 0.5 * (Tv (Suc k) + Tv k) * ln (P (Suc k) / P k)"

text \<open>
  A column with virtual temperature 1 on both levels whose pressures \<open>-1\<close> and \<open>-2\<close>
  decrease with the level, under the surface pressure \<open>-1\<close>.
\<close>

definition tv_example :: darray where
  "tv_example = (\<lambda>t k j i. 1)"

definition p_example :: darray where
  "p_example = (\<lambda>t k j i. - 1 - real k)"

definition ps_example :: darray where
  "ps_example = (\<lambda>t k j i. - 1)"

text \<open>A longitude axis that holds both 0 and 360 degrees.\<close>

definition lon_example :: dataset where
  "lon_example = empty_dataset\<lparr>ds_lon := [0, 360]\<rparr>"








section \<open>Predicates on traces and results\<close>




















section \<open>Properties of the temporal coverage filter\<close>

lemma str_split_not_Nil: "str_split sep s \<noteq> []"
  by (induction s) (auto split: list.splits)

lemma str_split_no_sep: "sep \<notin> set xs \<Longrightarrow> str_split sep xs = [xs]"
  by (induction xs) auto

lemma str_split_append:
  "sep \<notin> set xs \<Longrightarrow> str_split sep (xs @ sep # ys) = xs # str_split sep ys"
  by (induction xs) auto

lemma digit_not_special:
  "is_digit c \<Longrightarrow> \<not> is_space c \<and> c \<noteq> CHR ''+'' \<and> c \<noteq> CHR ''-'' \<and> c \<noteq> CHR ''_'' \<and> c \<noteq> CHR ''.''"
  by (auto simp: is_digit_def digit_val_def is_space_def Let_def split: if_splits)

lemma digit_val_digit: "is_digit c \<Longrightarrow> digit_val c = Some (of_char c - 48)"
  by (auto simp: is_digit_def digit_val_def Let_def split: if_splits)

lemma int_body_digits:
  "\<forall>c\<in>set s. is_digit c \<Longrightarrow>
     int_body acc s = Some (foldl (\<lambda>a c. 10 * a + (of_char c - 48)) acc s)"
proof (induction s arbitrary: acc)
  case Nil
  then show ?case by simp
next
  case (Cons c cs)
  then have "is_digit c" by simp
  then show ?case using Cons
    by (simp add: digit_val_digit digit_not_special)
qed

lemma int_digits_digits:
  assumes "s \<noteq> []" "\<forall>c\<in>set s. is_digit c"
  shows "int_digits s = Some (nat (dec_of s))"
proof (cases s)
  case Nil
  with assms show ?thesis by simp
next
  case (Cons c cs)
  with assms have "is_digit c" "\<forall>c\<in>set cs. is_digit c" by auto
  then show ?thesis using Cons
    by (simp add: int_digits_def dec_of_def digit_val_digit int_body_digits)
qed

lemma str_strip_digits:
  assumes "\<forall>c\<in>set s. is_digit c"
  shows "str_strip s = s"
proof -
  have a: "dropWhile is_space s = s"
    using assms by (cases s) (auto simp: digit_not_special)
  have "\<forall>c\<in>set (rev s). is_digit c" using assms by simp
  then have b: "dropWhile is_space (rev s) = rev s"
    by (cases "rev s") (auto simp: digit_not_special)
  show ?thesis by (simp add: str_strip_def a b)
qed

lemma py_int_digits:
  assumes "s \<noteq> []" "\<forall>c\<in>set s. is_digit c"
  shows "py_int s = Inr (dec_of s)"
proof -
  obtain c cs where s: "s = c # cs" using assms(1) by (cases s) auto
  then have "is_digit c" using assms(2) by simp
  then have c: "c \<noteq> CHR ''+''" "c \<noteq> CHR ''-''" by (auto dest: digit_not_special)
  have "0 \<le> dec_of s" by (simp add: dec_of_def)
  then show ?thesis
    using c s int_digits_digits[OF assms] str_strip_digits[OF assms(2)]
    by (simp add: py_int_def)
qed

lemma year_in_file_digits:
  assumes "length d1 = 8" "length d2 = 8" "\<forall>c\<in>set (d1 @ d2). is_digit c"
    and "rest = [] \<or> hd rest = CHR ''.''"
  shows "year_in_file (d1 @ ''-'' @ d2 @ rest) years =
           bindE (date_range_years (dec_of (take 4 d1)) (dec_of (take 4 d2))) (\<lambda>date_range.
             Inr ((dec_of (take 4 d1) = dec_of (take 4 d2) \<and> dec_of (take 4 d2) \<in> set years) \<or>
                  (\<exists>y\<in>set date_range. y \<in> set years)))"
proof -
  have nd: "CHR ''.'' \<notin> set (d1 @ ''-'' @ d2)" "CHR ''-'' \<notin> set d1" "CHR ''-'' \<notin> set d2"
    using assms(3) by (auto dest: digit_not_special)
  have dot: "py_index (str_split (CHR ''.'') (d1 @ CHR ''-'' # d2 @ rest)) 0 = Inr (d1 @ CHR ''-'' # d2)"
  proof (cases rest)
    case Nil
    then show ?thesis using str_split_no_sep[OF nd(1)] by (simp add: py_index_def)
  next
    case (Cons r rs)
    with assms(4) have "rest = CHR ''.'' # rs" by simp
    then show ?thesis using str_split_append[OF nd(1), of rs]
      by (simp add: py_index_def)
  qed
  have dash: "str_split (CHR ''-'') (d1 @ CHR ''-'' # d2) = [d1, d2]"
    using str_split_append[OF nd(2), of d2] str_split_no_sep[OF nd(3)] by simp
  have t1: "take 4 d1 \<noteq> []" "\<forall>c\<in>set (take 4 d1). is_digit c"
    using assms(1,3) by (auto dest: in_set_takeD)
  have t2: "take 4 d2 \<noteq> []" "\<forall>c\<in>set (take 4 d2). is_digit c"
    using assms(2,3) by (auto dest: in_set_takeD)
  have i0: "py_index [d1, d2] 0 = Inr d1" and i1: "py_index [d1, d2] 1 = Inr d2"
    by (simp_all add: py_index_def)
  show ?thesis
    by (cases "date_range_years (dec_of (take 4 d1)) (dec_of (take 4 d2))")
       (simp_all add: year_in_file_def dot bindE_def dash i0 i1 py_int_digits[OF t1] py_int_digits[OF t2])
qed

lemma date_range_years_in_bounds:
  "1678 \<le> s \<Longrightarrow> s \<le> 2262 \<Longrightarrow> 1678 \<le> e \<Longrightarrow> e \<le> 2262 \<Longrightarrow> date_range_years s e = Inr [s..e]"
  by (simp add: date_range_years_def year_start_def bindE_def)

lemma date_range_years_out_of_bounds:
  "\<not> (1678 \<le> s \<and> s \<le> 2262 \<and> 1678 \<le> e \<and> e \<le> 2262) \<Longrightarrow> \<exists>m. date_range_years s e = Inl (ValueError m)"
  by (auto simp: date_range_years_def year_start_def bindE_def)

text \<open>
  C8, as stated, fails: the years 2101 to 2300 of the locator hold no requested year,
  and the filter raises where it should exclude the locator, because the end year has
  no time stamp.
\<close>

theorem year_in_file_out_of_bounds:
  "year_in_file ''21010101-23001231.nc'' [2050] = Inl (ValueError ''Out of bounds nanosecond timestamp'')"
  by (simp add: year_in_file_def bindE_def py_index_def py_int_def str_strip_def is_space_def
      int_digits_def digit_val_def date_range_years_def year_start_def)

text \<open>
  C8, amended. Take a locator token \<open>YYYYMMDD-YYYYMMDD\<close> (eight digits, a dash, eight
  digits, and possibly an extension after a dot) with start year \<open>s\<close> and end year
  \<open>e\<close>. When both years lie in 1678 to 2262, the filter returns, and it includes the
  locator if and only if either \<open>s = e\<close> and that year is requested, or some year from
  \<open>s\<close> to \<open>e\<close> is requested; in particular a locator that spans exactly one requested
  year is included, and a locator whose range of years holds no requested year is
  excluded. When one of the two years lies outside 1678 to 2262, the filter raises a
  \<^verbatim>\<open>ValueError\<close>, whatever years are requested.
\<close>

theorem year_in_file_correct:
  assumes "length d1 = 8" and "length d2 = 8" and "\<forall>c\<in>set (d1 @ d2). is_digit c"
    and "rest = [] \<or> hd rest = CHR ''.''"
    and "s = dec_of (take 4 d1)" and "e = dec_of (take 4 d2)"
  shows "(1678 \<le> s \<and> s \<le> 2262 \<and> 1678 \<le> e \<and> e \<le> 2262 \<longrightarrow>
            year_in_file (d1 @ ''-'' @ d2 @ rest) years =
              Inr ((s = e \<and> e \<in> set years) \<or> (\<exists>y. s \<le> y \<and> y \<le> e \<and> y \<in> set years)) \<and>
            (s = e \<and> e \<in> set years \<longrightarrow> year_in_file (d1 @ ''-'' @ d2 @ rest) years = Inr True) \<and>
            ((\<forall>y\<in>set years. y < s \<or> e < y) \<longrightarrow>
               year_in_file (d1 @ ''-'' @ d2 @ rest) years = Inr False)) \<and>
         (\<not> (1678 \<le> s \<and> s \<le> 2262 \<and> 1678 \<le> e \<and> e \<le> 2262) \<longrightarrow>
            (\<exists>m. year_in_file (d1 @ ''-'' @ d2 @ rest) years = Inl (ValueError m)))"
proof -
  have eq: "year_in_file (d1 @ ''-'' @ d2 @ rest) years =
          bindE (date_range_years s e) (\<lambda>date_range.
            Inr ((s = e \<and> e \<in> set years) \<or> (\<exists>y\<in>set date_range. y \<in> set years)))"
    unfolding assms(5,6) by (rule year_in_file_digits[OF assms(1-4)])
  have inside: "year_in_file (d1 @ ''-'' @ d2 @ rest) years =
          Inr ((s = e \<and> e \<in> set years) \<or> (\<exists>y. s \<le> y \<and> y \<le> e \<and> y \<in> set years))"
    if "1678 \<le> s \<and> s \<le> 2262 \<and> 1678 \<le> e \<and> e \<le> 2262"
  proof -
    have "date_range_years s e = Inr [s..e]"
      using that by (simp add: date_range_years_in_bounds)
    moreover have "(\<exists>y\<in>set [s..e]. y \<in> set years) \<longleftrightarrow> (\<exists>y. s \<le> y \<and> y \<le> e \<and> y \<in> set years)"
      by auto
    ultimately show ?thesis unfolding eq by (simp add: bindE_def)
  qed
  have outside: "\<exists>m. year_in_file (d1 @ ''-'' @ d2 @ rest) years = Inl (ValueError m)"
    if "\<not> (1678 \<le> s \<and> s \<le> 2262 \<and> 1678 \<le> e \<and> e \<le> 2262)"
  proof -
    have "\<exists>m. date_range_years s e = Inl (ValueError m)"
      by (rule date_range_years_out_of_bounds) (use that in blast)
    then obtain m where "date_range_years s e = Inl (ValueError m)" by blast
    then show ?thesis unfolding eq by (simp add: bindE_def)
  qed
  have incl: "year_in_file (d1 @ ''-'' @ d2 @ rest) years = Inr True"
    if "1678 \<le> s \<and> s \<le> 2262 \<and> 1678 \<le> e \<and> e \<le> 2262" "s = e \<and> e \<in> set years"
    using inside[OF that(1)] that(2) by simp
  have excl: "year_in_file (d1 @ ''-'' @ d2 @ rest) years = Inr False"
    if "1678 \<le> s \<and> s \<le> 2262 \<and> 1678 \<le> e \<and> e \<le> 2262" "\<forall>y\<in>set years. y < s \<or> e < y"
  proof -
    have "\<not> (\<exists>y. s \<le> y \<and> y \<le> e \<and> y \<in> set years)" using that(2) by (auto simp: not_less)
    moreover have "\<not> (s = e \<and> e \<in> set years)" using that(2) by auto
    ultimately show ?thesis using inside[OF that(1)] by simp
  qed
  show ?thesis using inside incl excl outside by blast
qed

theorem year_in_file_correct_witness:
  "year_in_file ''20150101-20191231.nc'' [2016, 2017] = Inr True \<and>
   year_in_file ''20150101-20151231.nc'' [2015] = Inr True \<and>
   year_in_file ''20150101-20191231.nc'' [2020] = Inr False \<and>
   (\<exists>m. year_in_file ''16000101-16991231.nc'' [1650] = Inl (ValueError m))"
proof -
  have d1: "\<forall>c\<in>set (''20150101'' @ ''20191231''). is_digit c"
    and d2: "\<forall>c\<in>set (''20150101'' @ ''20151231''). is_digit c"
    and d3: "\<forall>c\<in>set (''16000101'' @ ''16991231''). is_digit c"
    by (simp_all add: is_digit_def digit_val_def)
  have s: "(2015::int) = dec_of (take 4 ''20150101'')"
    and e1: "(2019::int) = dec_of (take 4 ''20191231'')"
    and e2: "(2015::int) = dec_of (take 4 ''20151231'')"
    and s3: "(1600::int) = dec_of (take 4 ''16000101'')"
    and e3: "(1699::int) = dec_of (take 4 ''16991231'')"
    by (simp_all add: dec_of_def)
  have l: "length ''20150101'' = 8" "length ''20191231'' = 8" "length ''20151231'' = 8"
    "length ''16000101'' = 8" "length ''16991231'' = 8"
    by simp_all
  have r: "''.nc'' = [] \<or> hd ''.nc'' = CHR ''.''" by simp
  note a = year_in_file_correct[OF l(1) l(2) d1 r s e1, THEN conjunct1, rule_format]
  note b = year_in_file_correct[OF l(1) l(3) d2 r s e2, THEN conjunct1, rule_format]
  note c = year_in_file_correct[OF l(4) l(5) d3 r s3 e3, THEN conjunct2, rule_format]
  have in1: "(1678::int) \<le> 2015 \<and> (2015::int) \<le> 2262 \<and> (1678::int) \<le> 2019 \<and> (2019::int) \<le> 2262"
    and in2: "(1678::int) \<le> 2015 \<and> (2015::int) \<le> 2262 \<and> (1678::int) \<le> 2015 \<and> (2015::int) \<le> 2262"
    and out3: "\<not> ((1678::int) \<le> 1600 \<and> (1600::int) \<le> 2262 \<and> (1678::int) \<le> 1699 \<and> (1699::int) \<le> 2262)"
    by simp_all
  have ex: "\<exists>y::int. 2015 \<le> y \<and> y \<le> 2019 \<and> y \<in> set [2016, 2017]"
    by (rule exI[of _ 2016]) simp
  have "year_in_file (''20150101'' @ ''-'' @ ''20191231'' @ ''.nc'') [2016, 2017] = Inr True"
    using a[OF in1, of "[2016, 2017]", THEN conjunct1] ex by (simp only: simp_thms)
  moreover have "year_in_file (''20150101'' @ ''-'' @ ''20151231'' @ ''.nc'') [2015] = Inr True"
    using b[OF in2, of "[2015]", THEN conjunct2, THEN conjunct1] by simp
  moreover have "year_in_file (''20150101'' @ ''-'' @ ''20191231'' @ ''.nc'') [2020] = Inr False"
    using a[OF in1, of "[2020]", THEN conjunct2, THEN conjunct2] by simp
  moreover have "\<exists>m. year_in_file (''16000101'' @ ''-'' @ ''16991231'' @ ''.nc'') [1650] = Inl (ValueError m)"
    using c[OF out3] .
  ultimately show ?thesis by simp
qed

section \<open>Properties of the longitude normalization\<close>

lemma map_insort_key: "map f (insort_key f x xs) = insort (f x) (map f xs)"
  by (induction xs) auto

lemma map_sort_key: "map f (sort_key f xs) = sort (map f xs)"
  by (induction xs) (auto simp: map_insort_key)

lemma ds_lon_isel: "ds_lon (ds_isel Lon idx ds) = map (\<lambda>n. ds_lon ds ! n) idx"
  by (simp add: ds_isel_def)

lemma ds_lon_sortby: "ds_lon (sortby_lon ds) = sort (ds_lon ds)"
  by (simp add: sortby_lon_def ds_lon_isel map_sort_key map_nth)

lemma ds_lon_fix_lon: "ds_lon (fix_lon ds) = sort (map wrap_lon (ds_lon ds))"
  by (simp add: fix_lon_def ds_lon_sortby)

lemma py_mod_range: "0 < b \<Longrightarrow> 0 \<le> py_mod a b \<and> py_mod a b < b"
proof -
  assume b: "0 < b"
  have "of_int \<lfloor>a / b\<rfloor> * b \<le> a"
    using of_int_floor_le[of "a / b"] b by (simp only: pos_le_divide_eq)
  moreover have "a / b < of_int \<lfloor>a / b\<rfloor> + 1"
    by linarith
  then have "a < (of_int \<lfloor>a / b\<rfloor> + 1) * b"
    using b by (simp only: pos_divide_less_eq)
  ultimately show ?thesis by (simp add: py_mod_def algebra_simps)
qed

lemma wrap_lon_range: "- 180 \<le> wrap_lon x \<and> wrap_lon x < 180"
  using py_mod_range[of 360 "x + 180"] by (simp add: wrap_lon_def)

lemma wrap_lon_id: "- 180 \<le> x \<Longrightarrow> x < 180 \<Longrightarrow> wrap_lon x = x"
proof -
  assume "- 180 \<le> x" "x < 180"
  then have "\<lfloor>(x + 180) / 360\<rfloor> = 0" by (simp add: floor_eq_iff)
  then show ?thesis by (simp add: wrap_lon_def py_mod_def)
qed

lemma wrap_lon_idem: "wrap_lon (wrap_lon x) = wrap_lon x"
  using wrap_lon_range[of x] by (simp add: wrap_lon_id)

text \<open>
  C9, as stated, fails: the axis \<open>[0, 360]\<close> is normalized to \<open>[0, 0]\<close>, which is not
  strictly ascending.
\<close>

theorem fix_lon_not_strict: "\<not> sorted_wrt (<) (ds_lon (fix_lon lon_example))"
  by (simp add: lon_example_def empty_dataset_def ds_lon_fix_lon wrap_lon_def py_mod_def)

text \<open>
  C9, amended. The longitude normalization is idempotent on the longitude axis, its
  output lies in \<open>[-180, 180)\<close> and is ascending; it is strictly ascending exactly when
  no two longitudes of the input are wrapped to the same value.
\<close>

theorem fix_lon_normalizes:
  "ds_lon (fix_lon (fix_lon ds)) = ds_lon (fix_lon ds) \<and>
   (\<forall>x \<in> set (ds_lon (fix_lon ds)). - 180 \<le> x \<and> x < 180) \<and>
   sorted (ds_lon (fix_lon ds)) \<and>
   (sorted_wrt (<) (ds_lon (fix_lon ds)) \<longleftrightarrow> distinct (map wrap_lon (ds_lon ds)))"
proof -
  let ?ys = "map wrap_lon (ds_lon ds)"
  have "map wrap_lon (sort ?ys) = sort ?ys"
    by (rule map_idI) (auto simp: wrap_lon_idem)
  then have "ds_lon (fix_lon (fix_lon ds)) = ds_lon (fix_lon ds)"
    by (simp add: ds_lon_fix_lon sorted_sort_id)
  moreover have "\<forall>x \<in> set (ds_lon (fix_lon ds)). - 180 \<le> x \<and> x < 180"
    by (auto simp: ds_lon_fix_lon wrap_lon_range)
  moreover have "sorted (ds_lon (fix_lon ds))"
    by (simp add: ds_lon_fix_lon)
  moreover have "sorted_wrt (<) (ds_lon (fix_lon ds)) \<longleftrightarrow> distinct ?ys"
    by (simp add: ds_lon_fix_lon strict_sorted_iff)
  ultimately show ?thesis by blast
qed

theorem fix_lon_normalizes_witness:
  "ds_lon (fix_lon (empty_dataset\<lparr>ds_lon := [0, 90, 180, 270]\<rparr>)) = [- 180, - 90, 0, 90] \<and>
   ds_lon (fix_lon (fix_lon (empty_dataset\<lparr>ds_lon := [0, 90, 180, 270]\<rparr>))) = [- 180, - 90, 0, 90] \<and>
   sorted_wrt (<) (ds_lon (fix_lon (empty_dataset\<lparr>ds_lon := [0, 90, 180, 270]\<rparr>)))"
proof -
  have a: "ds_lon (fix_lon (empty_dataset\<lparr>ds_lon := [0, 90, 180, 270]\<rparr>)) = [- 180, - 90, 0, 90]"
    by (simp add: empty_dataset_def ds_lon_fix_lon wrap_lon_def py_mod_def)
  have d: "distinct (map wrap_lon (ds_lon (empty_dataset\<lparr>ds_lon := [0, 90, 180, 270]\<rparr>)))"
    by (simp add: empty_dataset_def wrap_lon_def py_mod_def)
  show ?thesis
    using fix_lon_normalizes[of "empty_dataset\<lparr>ds_lon := [0, 90, 180, 270]\<rparr>"] a d by simp
qed

section \<open>Properties of the height integration\<close>

lemma height_loop_length: "length (height_loop Rd g tv p ks z0 z) = length z + length ks"
  by (induction ks arbitrary: z0 z) (auto simp: Let_def)

lemma height_loop_upt:
  assumes "length z = m" "0 < m"
    and "\<forall>n<m. (z ! n) t l j i = hypsometric Rd g (\<lambda>k. tv t k j i) (\<lambda>k. p t k j i) ps n"
    and "z0 t l j i = hypsometric Rd g (\<lambda>k. tv t k j i) (\<lambda>k. p t k j i) ps (m - 1)"
    and "n < m + d"
  shows "(height_loop Rd g tv p [m..<m + d] z0 z ! n) t l j i =
           hypsometric Rd g (\<lambda>k. tv t k j i) (\<lambda>k. p t k j i) ps n"
  using assms
proof (induction d arbitrary: m z0 z)
  case 0
  then show ?case by simp
next
  case (Suc d)
  let ?H = "hypsometric Rd g (\<lambda>k. tv t k j i) (\<lambda>k. p t k j i) ps"
  define z1 where "z1 = (\<lambda>t l j i. z0 t l j i
                  - (Rd / g) * 0.5 * (da_isel_lev m tv t l j i + da_isel_lev (m - 1) tv t l j i)
                    * ln (da_isel_lev m p t l j i / da_isel_lev (m - 1) p t l j i))"
  obtain m' where m': "m = Suc m'" using Suc.prems(2) by (cases m) auto
  have z1: "z1 t l j i = ?H m"
    using Suc.prems(4) by (simp add: z1_def da_isel_lev_def m')
  have l: "[m..<m + Suc d] = m # [Suc m..<Suc m + d]"
    by (subst upt_conv_Cons) simp_all
  have unfold: "height_loop Rd g tv p [m..<m + Suc d] z0 z =
                height_loop Rd g tv p [Suc m..<Suc m + d] z1 (z @ [z1])"
    by (simp only: l height_loop.simps Let_def z1_def)
  have "(height_loop Rd g tv p [Suc m..<Suc m + d] z1 (z @ [z1]) ! n) t l j i = ?H n"
  proof (rule Suc.IH)
    show "length (z @ [z1]) = Suc m" using Suc.prems(1) by simp
    show "0 < Suc m" by simp
    show "\<forall>n<Suc m. ((z @ [z1]) ! n) t l j i = ?H n"
      using Suc.prems(1,3) z1 by (auto simp: nth_append less_Suc_eq)
    show "z1 t l j i = ?H (Suc m - 1)" using z1 by simp
    show "n < Suc m + d" using Suc.prems(5) by simp
  qed
  then show ?case by (simp only: unfold)
qed

lemma height_slices_spec:
  assumes "0 < klev"
  shows "\<exists>zs. height_slices Rd g tv p ps klev = Inr zs \<and> length zs = klev \<and>
           (\<forall>t l j i. \<forall>n<klev. (zs ! n) t l j i =
              hypsometric Rd g (\<lambda>k. tv t k j i) (\<lambda>k. p t k j i) (ps t l j i) n)"
proof -
  define z0 :: darray where
    "z0 = (\<lambda>t l j i. - (Rd / g) * da_isel_lev 0 tv t l j i * ln (da_isel_lev 0 p t l j i / ps t l j i))"
  let ?zs = "height_loop Rd g tv p [1..<klev] z0 [z0]"
  have eq: "height_slices Rd g tv p ps klev = Inr ?zs"
    using assms by (simp add: height_slices_def Let_def z0_def)
  have len: "length ?zs = klev"
    using assms by (simp add: height_loop_length)
  have "(?zs ! n) t l j i = hypsometric Rd g (\<lambda>k. tv t k j i) (\<lambda>k. p t k j i) (ps t l j i) n"
    if "n < klev" for n t l j i
  proof -
    have "(height_loop Rd g tv p [1..<1 + (klev - 1)] z0 [z0] ! n) t l j i =
          hypsometric Rd g (\<lambda>k. tv t k j i) (\<lambda>k. p t k j i) (ps t l j i) n"
      by (rule height_loop_upt) (use that assms in \<open>auto simp: da_isel_lev_def z0_def\<close>)
    then show ?thesis using assms by simp
  qed
  with eq len show ?thesis by blast
qed

lemma hypsometric_step:
  assumes "0 < Rd / g" "0 < Tv k" "0 < Tv (Suc k)" "0 < P (Suc k)" "P (Suc k) < P k"
  shows "hypsometric Rd g Tv P ps k < hypsometric Rd g Tv P ps (Suc k)"
proof -
  have "0 < P k" using assms(4,5) by simp
  then have "P (Suc k) / P k < 1" "0 < P (Suc k) / P k" using assms(4,5) by simp_all
  then have "ln (P (Suc k) / P k) < 0" by (simp add: ln_less_zero)
  moreover have "0 < (Rd / g) * 0.5 * (Tv (Suc k) + Tv k)"
    using assms(1-3) by (intro mult_pos_pos add_pos_pos) simp_all
  ultimately have "(Rd / g) * 0.5 * (Tv (Suc k) + Tv k) * ln (P (Suc k) / P k) < 0"
    by (simp only: mult_pos_neg)
  then show ?thesis by simp
qed

lemma hypsometric_mono:
  assumes "0 < Rd / g" and "\<forall>k<klev. 0 < Tv k \<and> 0 < P k"
    and "\<forall>k. Suc k < klev \<longrightarrow> P (Suc k) < P k"
    and "k < k'" and "k' < klev"
  shows "hypsometric Rd g Tv P ps k < hypsometric Rd g Tv P ps k'"
  using assms(4,5)
proof (induction k')
  case 0
  then show ?case by simp
next
  case (Suc n)
  have step: "hypsometric Rd g Tv P ps n < hypsometric Rd g Tv P ps (Suc n)"
    by (rule hypsometric_step) (use Suc.prems assms(1-3) in \<open>auto simp: Suc_lessD\<close>)
  show ?case
  proof (cases "k = n")
    case True
    with step show ?thesis by simp
  next
    case False
    with Suc.prems have "k < n" "n < klev" by simp_all
    then have "hypsometric Rd g Tv P ps k < hypsometric Rd g Tv P ps n" by (rule Suc.IH)
    then show ?thesis using step by (rule less_trans)
  qed
qed

lemma hybrid_height_one_level:
  "hybrid_height tv p ps 1 = Inl (ValueError ''cannot add coordinates with new dimensions to a DataArray'')"
  by (simp add: hybrid_height_def height_slices_def bindE_def Let_def)

text \<open>
  C5, as stated, fails. Its hypotheses do not speak of the sign of the pressure, and
  the code checks none: in the column \<open>tv_example\<close>, \<open>p_example\<close> the virtual
  temperature is positive and the pressure decreases strictly with the level, every
  logarithm is taken of a positive number (1 and 2), and the height of level 1 lies
  below the height of level 0. And when the selection keeps a single level, no height
  is computed at all: for a column of virtual temperature 280 and pressure 100000 under
  the surface pressure 101000 the calculation raises.
\<close>

theorem hybrid_height_fails:
  "0 < tv_example 0 0 0 0 \<and> 0 < tv_example 0 1 0 0 \<and> p_example 0 1 0 0 < p_example 0 0 0 0 \<and>
   p_example 0 0 0 0 / ps_example 0 0 0 0 = 1 \<and> p_example 0 1 0 0 / p_example 0 0 0 0 = 2 \<and>
   (case hybrid_height tv_example p_example ps_example 2 of
      Inl e \<Rightarrow> False | Inr z \<Rightarrow> z 0 1 0 0 < z 0 0 0 0) \<and>
   hybrid_height (\<lambda>t k j i. 280) (\<lambda>t k j i. 100000) (\<lambda>t k j i. 101000) 1 =
     Inl (ValueError ''cannot add coordinates with new dimensions to a DataArray'')"
proof -
  have "(0::real) < ln 2" by simp
  then have "case hybrid_height tv_example p_example ps_example 2 of
      Inl e \<Rightarrow> False | Inr z \<Rightarrow> z 0 1 0 0 < z 0 0 0 0"
    by (simp add: hybrid_height_def height_slices_def bindE_def Let_def da_concat_lev_def
        da_isel_lev_def tv_example_def p_example_def ps_example_def upt_rec[of "Suc 0"])
  moreover have "0 < tv_example 0 0 0 0 \<and> 0 < tv_example 0 1 0 0 \<and> p_example 0 1 0 0 < p_example 0 0 0 0 \<and>
      p_example 0 0 0 0 / ps_example 0 0 0 0 = 1 \<and> p_example 0 1 0 0 / p_example 0 0 0 0 = 2"
    by (simp add: tv_example_def p_example_def ps_example_def)
  ultimately show ?thesis by (simp only: hybrid_height_one_level simp_thms)
qed

text \<open>
  C5, amended. On two or more levels the height that \<^verbatim>\<open>get_data_wind\<close> integrates
  is, at every point of the grid, the recurrence of the hypsometric equation with
  \<open>Rd = 287.058\<close> and \<open>g = 9.80665\<close>, accumulated from level 0 upward; and at every
  point where the virtual temperature is positive on all levels, the pressure on all
  levels and the surface pressure are positive (every logarithm is then taken of a
  positive number), and the pressure decreases strictly with the level, the heights
  increase strictly with the level.
\<close>

theorem hybrid_height_hypsometric:
  assumes "2 \<le> klev"
  shows "\<exists>z. hybrid_height tv p ps klev = Inr z \<and>
           (\<forall>t j i. \<forall>k<klev. z t k j i =
              hypsometric 287.058 9.80665 (\<lambda>k. tv t k j i) (\<lambda>k. p t k j i) (ps t 0 j i) k) \<and>
           (\<forall>t j i. (\<forall>k<klev. 0 < tv t k j i \<and> 0 < p t k j i) \<and> 0 < ps t 0 j i \<and>
                    (\<forall>k. Suc k < klev \<longrightarrow> p t (Suc k) j i < p t k j i) \<longrightarrow>
                    (\<forall>k k'. k < k' \<and> k' < klev \<longrightarrow> z t k j i < z t k' j i))"
proof -
  let ?H = "\<lambda>t j i. hypsometric 287.058 9.80665 (\<lambda>k. tv t k j i) (\<lambda>k. p t k j i) (ps t 0 j i)"
  from assms have "0 < klev" by simp
  from height_slices_spec[OF this, of "287.058" "9.80665" tv p ps]
  obtain zs where zs: "height_slices 287.058 9.80665 tv p ps klev = Inr zs" "length zs = klev"
    "\<forall>t l j i. \<forall>n<klev. (zs ! n) t l j i =
        hypsometric 287.058 9.80665 (\<lambda>k. tv t k j i) (\<lambda>k. p t k j i) (ps t l j i) n" by blast
  have "klev \<noteq> 1" using assms by simp
  then have eq: "hybrid_height tv p ps klev = Inr (da_concat_lev zs)"
    unfolding hybrid_height_def Let_def zs(1) bindE_def by simp
  have val: "\<forall>t j i. \<forall>k<klev. da_concat_lev zs t k j i = ?H t j i k"
    using zs(3) by (simp add: da_concat_lev_def)
  have mono: "da_concat_lev zs t k j i < da_concat_lev zs t k' j i"
    if h: "(\<forall>k<klev. 0 < tv t k j i \<and> 0 < p t k j i) \<and> 0 < ps t 0 j i \<and>
           (\<forall>k. Suc k < klev \<longrightarrow> p t (Suc k) j i < p t k j i)"
      and kk: "k < k' \<and> k' < klev" for t j i k k'
  proof -
    have "?H t j i k < ?H t j i k'"
      by (rule hypsometric_mono[where klev = klev]) (use h kk in simp_all)
    moreover have "k < klev" using kk by simp
    ultimately show ?thesis using val kk by simp
  qed
  from eq val mono show ?thesis by blast
qed

theorem hybrid_height_hypsometric_witness:
  "\<exists>z. hybrid_height (\<lambda>t k j i. 280) (\<lambda>t k j i. 1000 - 100 * real k) (\<lambda>t k j i. 1010) 2 = Inr z \<and>
      z 0 0 0 0 = - (287.058 / 9.80665) * 280 * ln (1000 / 1010) \<and>
      z 0 0 0 0 < z 0 1 0 0"
proof -
  let ?tv = "\<lambda>(t::nat) (k::nat) (j::nat) (i::nat). 280::real"
  let ?p = "\<lambda>(t::nat) (k::nat) (j::nat) (i::nat). 1000 - 100 * real k"
  let ?ps = "\<lambda>(t::nat) (k::nat) (j::nat) (i::nat). 1010::real"
  have "(2::nat) \<le> 2" by simp
  from hybrid_height_hypsometric[OF this, of ?tv ?p ?ps]
  obtain z where z: "hybrid_height ?tv ?p ?ps 2 = Inr z"
    "\<forall>t j i. \<forall>k<2. z t k j i =
        hypsometric 287.058 9.80665 (\<lambda>k. ?tv t k j i) (\<lambda>k. ?p t k j i) (?ps t 0 j i) k"
    "\<forall>t j i. (\<forall>k<2. 0 < ?tv t k j i \<and> 0 < ?p t k j i) \<and> 0 < ?ps t 0 j i \<and>
                  (\<forall>k. Suc k < 2 \<longrightarrow> ?p t (Suc k) j i < ?p t k j i) \<longrightarrow>
                  (\<forall>k k'. k < k' \<and> k' < 2 \<longrightarrow> z t k j i < z t k' j i)"
    by auto
  have "z 0 0 0 0 = - (287.058 / 9.80665) * 280 * ln (1000 / 1010)"
    using z(2) by simp
  moreover have "z 0 0 0 0 < z 0 1 0 0"
  proof -
    have "(\<forall>k<2. 0 < ?tv 0 k 0 0 \<and> 0 < ?p 0 k 0 0) \<and> 0 < ?ps 0 0 0 0 \<and>
                  (\<forall>k. Suc k < 2 \<longrightarrow> ?p 0 (Suc k) 0 0 < ?p 0 k 0 0)"
      by (auto simp: less_Suc_eq numeral_2_eq_2)
    with z(3) have "\<forall>k k'. k < k' \<and> k' < 2 \<longrightarrow> z 0 k 0 0 < z 0 k' 0 0" by blast
    then show ?thesis by simp
  qed
  ultimately show ?thesis using z(1) by blast
qed

section \<open>Properties of the dispatcher\<close>



















section \<open>The trace and the result of a calculator\<close>












subsection \<open>One retrieval\<close>









subsection \<open>The data variables through the operations on datasets\<close>












subsection \<open>The four calculators\<close>











section \<open>Example runs\<close>










section \<open>Properties of a call of the dispatcher\<close>



















end
